theory Spec2Isabelle
  imports Complex_Main
begin

section \<open>Numbers, errors and library functions\<close>

text \<open>
  The program \<^verbatim>\<open>spl_meter.py\<close> computes with Python floats and numpy float64 values.
  They are modelled by the real numbers: every arithmetic operation is the exact one, and
  a decimal literal such as \<^verbatim>\<open>0.707\<close> is the rational it denotes. What the
  reals cannot express is written out: an exception is a value of type \<open>error\<close>
  (\<open>Inl\<close> of a sum), and numpy's \<^verbatim>\<open>nan\<close> (which no real number stands
  for) is the outcome \<open>NotANumber\<close>.
\<close>

datatype error = ValueError | ZeroDivisionError | IndexError | NotANumber

text \<open>
  \<^verbatim>\<open>round(x)\<close> of Python 3: the nearest integer, a tie going to the even
  neighbour.
\<close>

definition py_round :: "real \<Rightarrow> int" where
  "py_round x =
     (let f = \<lfloor>x\<rfloor>; d = x - of_int f
      in if d < 1 / 2 then f else if 1 / 2 < d then f + 1 else if even f then f else f + 1)"

text \<open>\<^verbatim>\<open>round(x, n)\<close> for \<open>n \<ge> 0\<close>: the nearest multiple of \<open>10\<^sup>-\<^sup>n\<close>.\<close>

definition py_round_ndigits :: "real \<Rightarrow> nat \<Rightarrow> real" where
  "py_round_ndigits x n = of_int (py_round (x * 10 ^ n)) / 10 ^ n"

text \<open>
  \<^verbatim>\<open>math.log(x, base)\<close>: the quotient of two natural logarithms. Each logarithm
  raises \<^verbatim>\<open>ValueError: math domain error\<close> on an argument that is not positive,
  and the division raises \<^verbatim>\<open>ZeroDivisionError\<close> for base 1.
\<close>

definition math_log :: "real \<Rightarrow> real \<Rightarrow> error + real" where
  "math_log x b =
     (if x \<le> 0 \<or> b \<le> 0 then Inl ValueError
      else if b = 1 then Inl ZeroDivisionError
      else Inr (ln x / ln b))"

text \<open>
  A slice \<^verbatim>\<open>xs[start:stop]\<close>: a negative index counts from the end, and both
  indices are clipped to the list.
\<close>

definition slice_index :: "int \<Rightarrow> nat \<Rightarrow> nat" where
  "slice_index i len = (if i < 0 then nat (max 0 (i + int len)) else min (nat i) len)"

definition py_slice :: "'a list \<Rightarrow> int \<Rightarrow> int \<Rightarrow> 'a list" where
  "py_slice xs start stop =
     (let s = slice_index start (length xs); e = slice_index stop (length xs)
      in take (e - s) (drop s xs))"

text \<open>\<^verbatim>\<open>xs.insert(i, x)\<close> for \<open>i \<ge> 0\<close>; past the end it appends.\<close>

definition list_insert :: "'a list \<Rightarrow> nat \<Rightarrow> 'a \<Rightarrow> 'a list" where
  "list_insert xs i x = take i xs @ x # drop i xs"

text \<open>
  \<^verbatim>\<open>numpy.mean\<close> of an empty slice and \<^verbatim>\<open>numpy.sqrt\<close> of a negative
  number are \<^verbatim>\<open>nan\<close> (numpy warns and does not raise).
\<close>

definition np_mean :: "real list \<Rightarrow> error + real" where
  "np_mean xs = (if xs = [] then Inl NotANumber else Inr (sum_list xs / real (length xs)))"

definition np_sqrt :: "real \<Rightarrow> error + real" where
  "np_sqrt x = (if x < 0 then Inl NotANumber else Inr (sqrt x))"

text \<open>
  \<^verbatim>\<open>numpy.fft.rfft(a, n)\<close>, by its documented definition: the input is cropped or
  padded with zeros to \<open>n\<close> points, and the result holds the \<open>n div 2 + 1\<close> terms
  \<open>A\<^sub>k = \<Sum>\<^sub>j a\<^sub>j exp (- 2 \<pi> i j k / n)\<close> of the discrete Fourier transform at the
  non-negative frequencies. It raises \<^verbatim>\<open>ValueError\<close> for \<open>n < 1\<close>.
\<close>

definition zero_pad :: "real list \<Rightarrow> nat \<Rightarrow> real list" where
  "zero_pad a n = take n a @ replicate (n - length a) 0"

definition rfft :: "real list \<Rightarrow> nat \<Rightarrow> error + complex list" where
  "rfft a n =
     (if n < 1 then Inl ValueError
      else Inr (map (\<lambda>k. \<Sum>j<n. complex_of_real (zero_pad a n ! j)
                              * cis (- 2 * pi * real j * real k / real n))
                 [0..<n div 2 + 1]))"

section \<open>The class Noise\<close>

record Noise =
  duration :: real
  sample_rate :: nat

text \<open>\<^verbatim>\<open>noise = Noise()\<close>, with the defaults of the constructor.\<close>

definition noise :: Noise where
  "noise = \<lparr>duration = 1 / 2, sample_rate = 16000\<rparr>"

text \<open>
  \<^verbatim>\<open>get_amplitudes_at_frequency_ranges\<close>. The block recorded by
  \<^verbatim>\<open>self._record()\<close> comes from the microphone; the model receives its channel 0
  as the list \<open>recording\<close>. The loop over \<^verbatim>\<open>ranges\<close> appends one amplitude per
  range to \<^verbatim>\<open>result\<close>.
\<close>

fun amplitudes_loop :: "real list \<Rightarrow> (int \<times> int) list \<Rightarrow> real list \<Rightarrow> error + real list" where
  "amplitudes_loop magnitude [] result = Inr result"
| "amplitudes_loop magnitude ((start, stop) # rs) result =
     (case np_mean (py_slice magnitude start stop) of
        Inl e \<Rightarrow> Inl e
      | Inr m \<Rightarrow>
          (case np_sqrt m of
             Inl e \<Rightarrow> Inl e
           | Inr a \<Rightarrow> amplitudes_loop magnitude rs (result @ [a])))"

definition get_amplitudes_at_frequency_ranges ::
    "Noise \<Rightarrow> real list \<Rightarrow> (int \<times> int) list \<Rightarrow> error + real list" where
  "get_amplitudes_at_frequency_ranges self recording rs =
     (case rfft recording (sample_rate self) of
        Inl e \<Rightarrow> Inl e
      | Inr spectrum \<Rightarrow> amplitudes_loop (map (\<lambda>z. (cmod z)\<^sup>2) spectrum) rs [])"

section \<open>The constants of the script\<close>

definition lower_multiplier :: real where
  "lower_multiplier = 0.707"

definition upper_multiplier :: real where
  "upper_multiplier = 1.412"

definition max_spl :: real where
  "max_spl = 450"

text \<open>\<^verbatim>\<open>log2_max_spl = math.log(max_spl, 2)\<close>, which does not raise.\<close>

definition log2_max_spl :: real where
  "log2_max_spl = ln max_spl / ln 2"

definition l_margin :: int where
  "l_margin = 29"

definition delay :: real where
  "delay = 0.5"

definition bands :: "int list" where
  "bands = [8000, 4000, 2000, 1000, 500, 250, 125, 63]"

definition no_of_measurements :: nat where
  "no_of_measurements = length bands"

definition a_weightings :: "real list" where
  "a_weightings = [1.2, 1.6, 1.6, 1.0, 0.5, 0.1, 0.02, 0.003]"

text \<open>The range of bins of one band, and the list the main loop passes to the estimator.\<close>

definition band_range :: "int \<Rightarrow> int \<times> int" where
  "band_range b = (py_round (of_int b * lower_multiplier), py_round (of_int b * upper_multiplier))"

definition ranges :: "(int \<times> int) list" where
  "ranges = map band_range bands"

section \<open>Weighting and scaling\<close>

text \<open>
  The loop \<^verbatim>\<open>for b in range(no_of_measurements): weighted_amps.insert(b, round(2*(amps[b]*a_weightings[b]), 2))\<close>.
  An index past the end of either list raises \<^verbatim>\<open>IndexError\<close>.
\<close>

fun weighted_amps_loop :: "nat list \<Rightarrow> real list \<Rightarrow> real list \<Rightarrow> real list \<Rightarrow> error + real list" where
  "weighted_amps_loop [] amps aw acc = Inr acc"
| "weighted_amps_loop (b # bs) amps aw acc =
     (if b < length amps \<and> b < length aw
      then weighted_amps_loop bs amps aw
             (list_insert acc b (py_round_ndigits (2 * (amps ! b * aw ! b)) 2))
      else Inl IndexError)"

definition weighted_amps :: "nat \<Rightarrow> real list \<Rightarrow> real list \<Rightarrow> error + real list" where
  "weighted_amps n amps aw = weighted_amps_loop [0..<n] amps aw []"

text \<open>
  One element of \<^verbatim>\<open>bar_values\<close> in each display mode. The width of the display,
  \<^verbatim>\<open>disp.width\<close>, is a property of the ST7735 driver and is a parameter here.
\<close>

definition log2_bar_value :: "int \<Rightarrow> real \<Rightarrow> error + real" where
  "log2_bar_value disp_width s =
     (case math_log s 2 of
        Inl e \<Rightarrow> Inl e
      | Inr l \<Rightarrow>
          Inr (py_round_ndigits
                 (of_int (disp_width - l_margin) * (max 0 l * (100 / log2_max_spl) / 100)) 2))"

definition linear_bar_value :: "int \<Rightarrow> real \<Rightarrow> real" where
  "linear_bar_value disp_width s =
     py_round_ndigits (of_int (disp_width - l_margin) * (s / max_spl)) 2"

text \<open>The list comprehension of the log2 branch stops at the first exception.\<close>

fun log2_bar_values :: "int \<Rightarrow> real list \<Rightarrow> error + real list" where
  "log2_bar_values disp_width [] = Inr []"
| "log2_bar_values disp_width (s # ss) =
     (case log2_bar_value disp_width s of
        Inl e \<Rightarrow> Inl e
      | Inr v \<Rightarrow>
          (case log2_bar_values disp_width ss of
             Inl e \<Rightarrow> Inl e
           | Inr vs \<Rightarrow> Inr (v # vs)))"

section \<open>The main loop\<close>

text \<open>
  The variables the loop keeps between iterations. \<^verbatim>\<open>display_type\<close> is a Python
  string; \<^verbatim>\<open>count\<close> only changes when \<^verbatim>\<open>print_values\<close> is set, which
  it never is.
\<close>

record state =
  display_type :: string
  last_page :: real
  aww_go_on :: bool

definition initial_state :: state where
  "initial_state = \<lparr>display_type = ''n'', last_page = 0, aww_go_on = True\<rparr>"

text \<open>
  What one iteration reads from outside: the proximity sensor, the clock where the
  condition of the toggle reads it (\<open>time_cond\<close>) and where the assignment to
  \<^verbatim>\<open>last_page\<close> reads it again (\<open>time_set\<close>), and the recorded block.
\<close>

record cycle_input =
  proximity :: int
  time_cond :: real
  time_set :: real
  audio :: "real list"

definition proximity_toggle :: "state \<Rightarrow> cycle_input \<Rightarrow> state" where
  "proximity_toggle st inp =
     (if 1500 < proximity inp \<and> delay < time_cond inp - last_page st
      then st\<lparr>display_type :=
                  (if display_type st = ''n'' then ''l''
                   else if display_type st = ''l'' then ''n''
                   else display_type st),
              last_page := time_set inp\<rparr>
      else st)"

text \<open>
  What an iteration hands to the drawing code: the axis label, the fill colour and the
  bar values, or the error screen. The layout of the bars on the canvas is not modelled.
\<close>

datatype frame = Bars string "nat \<times> nat \<times> nat" "real list" | Oops

definition main_iteration :: "int \<Rightarrow> state \<Rightarrow> cycle_input \<Rightarrow> error + state \<times> frame" where
  "main_iteration disp_width st inp =
     (let st1 = proximity_toggle st inp in
      case get_amplitudes_at_frequency_ranges noise (audio inp) ranges of
        Inl e \<Rightarrow> Inl e
      | Inr amps \<Rightarrow>
          (case weighted_amps no_of_measurements amps a_weightings of
             Inl e \<Rightarrow> Inl e
           | Inr wa \<Rightarrow>
               if display_type st1 = ''l''
               then (case log2_bar_values disp_width wa of
                       Inl e \<Rightarrow> Inl e
                     | Inr bar_values \<Rightarrow>
                         Inr (st1, Bars ''Log(2) Ampilitude RMS(A)'' (251, 164, 9) bar_values))
               else if display_type st1 = ''n''
               then Inr (st1, Bars ''Ampilitude RMS(A)'' (58, 68, 238)
                                (map (linear_bar_value disp_width) wa))
               else Inr (st1\<lparr>aww_go_on := False\<rparr>, Oops)))"

text \<open>
  \<^verbatim>\<open>while aww_go_on == True\<close>, run on the inputs of finitely many iterations: the
  loop itself only ends by the flag, an exception or the interrupt of the user.
\<close>

fun main_loop :: "int \<Rightarrow> state \<Rightarrow> cycle_input list \<Rightarrow> error + state" where
  "main_loop disp_width st [] = Inr st"
| "main_loop disp_width st (inp # inps) =
     (if aww_go_on st
      then (case main_iteration disp_width st inp of
              Inl e \<Rightarrow> Inl e
            | Inr (st', fr) \<Rightarrow> main_loop disp_width st' inps)
      else Inr st)"

section \<open>Rounding\<close>

lemma py_round_of_int: "py_round (of_int n) = n"
  by (simp add: py_round_def)

lemma py_round_cases:
  "py_round x = \<lfloor>x\<rfloor> \<and> x - of_int \<lfloor>x\<rfloor> \<le> 1 / 2 \<or> py_round x = \<lfloor>x\<rfloor> + 1 \<and> 1 / 2 \<le> x - of_int \<lfloor>x\<rfloor>"
  by (simp add: py_round_def Let_def)

lemma py_round_error: "\<bar>of_int (py_round x) - x\<bar> \<le> 1 / 2"
proof -
  have "of_int \<lfloor>x\<rfloor> \<le> x" and "x < of_int \<lfloor>x\<rfloor> + 1"
    by linarith+
  with py_round_cases [of x] show ?thesis
    by auto
qed

lemma py_round_mono:
  assumes "x \<le> y"
  shows "py_round x \<le> py_round y"
proof (cases "\<lfloor>x\<rfloor> = \<lfloor>y\<rfloor>")
  case True
  with assms show ?thesis
    by (simp add: py_round_def Let_def)
next
  case False
  with assms have "\<lfloor>x\<rfloor> + 1 \<le> \<lfloor>y\<rfloor>"
    using floor_mono [of x y] by linarith
  moreover have "py_round x \<le> \<lfloor>x\<rfloor> + 1"
    using py_round_cases [of x] by auto
  moreover have "\<lfloor>y\<rfloor> \<le> py_round y"
    using py_round_cases [of y] by auto
  ultimately show ?thesis
    by linarith
qed

lemma py_round_separated:
  assumes "x + 1 < y"
  shows "py_round x < py_round y"
proof -
  have "\<bar>of_int (py_round x) - x\<bar> \<le> 1 / 2" and "\<bar>of_int (py_round y) - y\<bar> \<le> 1 / 2"
    by (rule py_round_error)+
  with assms have "(of_int (py_round x) :: real) < of_int (py_round y)"
    by linarith
  then show ?thesis
    by simp
qed

lemma py_round_ndigits_error: "\<bar>py_round_ndigits x 2 - x\<bar> \<le> 1 / 200"
proof -
  have "\<bar>of_int (py_round (x * 100)) - x * 100\<bar> \<le> 1 / 2"
    by (rule py_round_error)
  then show ?thesis
    by (simp add: py_round_ndigits_def field_simps abs_le_iff)
qed

lemma py_round_ndigits_mono:
  assumes "x \<le> y"
  shows "py_round_ndigits x n \<le> py_round_ndigits y n"
proof -
  from assms have "x * 10 ^ n \<le> y * 10 ^ n"
    by simp
  then have "py_round (x * 10 ^ n) \<le> py_round (y * 10 ^ n)"
    by (rule py_round_mono)
  then show ?thesis
    by (simp add: py_round_ndigits_def divide_right_mono)
qed

lemma py_round_ndigits_of_int: "py_round_ndigits (of_int k) n = of_int k"
proof -
  have "of_int k * 10 ^ n = (of_int (k * 10 ^ n) :: real)"
    by simp
  then have "py_round (of_int k * 10 ^ n) = k * 10 ^ n"
    using py_round_of_int [of "k * 10 ^ n"] by simp
  then show ?thesis
    by (simp add: py_round_ndigits_def)
qed

section \<open>The frequency ranges\<close>

lemma ranges_eq:
  "ranges = [(5656, 11296), (2828, 5648), (1414, 2824), (707, 1412),
             (354, 706), (177, 353), (88, 176), (45, 89)]"
  by (simp add: ranges_def band_range_def bands_def py_round_def
      lower_multiplier_def upper_multiplier_def Let_def)

lemma bands_ge: "c \<in> set bands \<Longrightarrow> 63 \<le> c"
  by (auto simp add: bands_def)

text \<open>
  The strict order of the two ends of a range does not depend on how a product such as
  \<^verbatim>\<open>125*1.412\<close> is rounded in floating point: it holds for every pair of values
  within \<open>0.001\<close> of the exact products, for every centre frequency from 2 up.
\<close>

lemma band_range_robust:
  assumes "2 \<le> c"
    and "\<bar>x - of_int c * lower_multiplier\<bar> \<le> 1 / 1000"
    and "\<bar>y - of_int c * upper_multiplier\<bar> \<le> 1 / 1000"
  shows "py_round x < py_round y"
proof -
  have c: "(2::real) \<le> of_int c"
    using assms(1) by simp
  have "of_int c * lower_multiplier = of_int c * 707 / 1000"
    and "of_int c * upper_multiplier = of_int c * 353 / 250"
    by (simp_all add: lower_multiplier_def upper_multiplier_def)
  with assms(2,3) have "\<bar>x - of_int c * 707 / 1000\<bar> \<le> 1 / 1000"
    and "\<bar>y - of_int c * 353 / 250\<bar> \<le> 1 / 1000"
    by (simp_all only:)
  with c have "x + 1 < y"
    by linarith
  then show ?thesis
    by (rule py_round_separated)
qed

text \<open>
  Claim C8. For every centre frequency of the band list the start of its range is below
  the end, and for two centre frequencies \<open>c \<le> c'\<close> of the list neither the start nor the
  end of the range decreases from \<open>c\<close> to \<open>c'\<close>.
\<close>

theorem band_ranges_ordered:
  assumes "c \<in> set bands" and "c' \<in> set bands" and "c \<le> c'"
  shows "fst (band_range c) < snd (band_range c)
    \<and> fst (band_range c) \<le> fst (band_range c')
    \<and> snd (band_range c) \<le> snd (band_range c')"
proof (intro conjI)
  from assms(1) have "2 \<le> c"
    using bands_ge [of c] by simp
  then show "fst (band_range c) < snd (band_range c)"
    by (simp add: band_range_def band_range_robust)
  from assms(3) have "(of_int c :: real) \<le> of_int c'"
    by simp
  then have "of_int c * lower_multiplier \<le> of_int c' * lower_multiplier"
    and "of_int c * upper_multiplier \<le> of_int c' * upper_multiplier"
    by (simp_all add: lower_multiplier_def upper_multiplier_def)
  then show "fst (band_range c) \<le> fst (band_range c')"
    and "snd (band_range c) \<le> snd (band_range c')"
    by (simp_all add: band_range_def py_round_mono)
qed

theorem band_ranges_ordered_witness:
  "63 \<in> set bands \<and> 125 \<in> set bands \<and> (63::int) \<le> 125
   \<and> band_range 63 = (45, 89) \<and> band_range 125 = (88, 176)
   \<and> fst (band_range 63) < snd (band_range 63)
   \<and> fst (band_range 63) \<le> fst (band_range 125)
   \<and> snd (band_range 63) \<le> snd (band_range 125)"
proof -
  have h1: "63 \<in> set bands" and h2: "125 \<in> set bands"
    by (simp_all add: bands_def)
  have h3: "(63::int) \<le> 125"
    by simp
  have "band_range 63 = (45, 89)" and "band_range 125 = (88, 176)"
    by (simp_all add: band_range_def py_round_def lower_multiplier_def upper_multiplier_def Let_def)
  with band_ranges_ordered [OF h1 h2 h3] h1 h2 show ?thesis
    by simp
qed

section \<open>The spectral estimator\<close>

text \<open>
  A block whose spectrum is flat: the all-zero block, and the block that holds one sample
  \<open>c\<close> (every term of its transform is \<open>c\<close>).
\<close>

lemma zero_pad_zero: "zero_pad (replicate m 0) n = replicate n 0"
  by (simp add: zero_pad_def replicate_add [symmetric])

lemma rfft_zero:
  assumes "1 \<le> n"
  shows "rfft (replicate m 0) n = Inr (replicate (n div 2 + 1) 0)"
proof -
  have "(\<Sum>j<n. complex_of_real (replicate n 0 ! j) * cis (- 2 * pi * real j * real k / real n)) = 0"
    for k
    by (rule sum.neutral) simp
  then show ?thesis
    using assms by (simp add: rfft_def zero_pad_zero map_replicate_const)
qed

lemma zero_pad_impulse_nth:
  assumes "j < n"
  shows "zero_pad [c] n ! j = (if j = 0 then c else 0)"
  using assms by (cases j) (simp_all add: zero_pad_def)

lemma rfft_impulse:
  assumes "1 \<le> n"
  shows "rfft [c] n = Inr (replicate (n div 2 + 1) (complex_of_real c))"
proof -
  have "(\<Sum>j<n. complex_of_real (zero_pad [c] n ! j) * cis (- 2 * pi * real j * real k / real n))
      = complex_of_real c" for k
  proof -
    have "(\<Sum>j<n. complex_of_real (zero_pad [c] n ! j) * cis (- 2 * pi * real j * real k / real n))
        = (\<Sum>j<n. if j = 0 then complex_of_real c else 0)"
      by (intro sum.cong) (simp_all add: zero_pad_impulse_nth)
    also have "\<dots> = complex_of_real c"
      using assms by simp
    finally show ?thesis .
  qed
  then show ?thesis
    using assms by (simp add: rfft_def map_replicate_const)
qed

lemma py_slice_replicate:
  "py_slice (replicate len x) start stop =
     replicate (slice_index stop len - slice_index start len) x"
proof -
  have "slice_index stop len \<le> len"
    by (auto simp add: slice_index_def)
  then show ?thesis
    by (simp add: py_slice_def Let_def min_def)
qed

lemma np_mean_replicate: "0 < k \<Longrightarrow> np_mean (replicate k v) = Inr v"
  by (simp add: np_mean_def sum_list_replicate)

lemma amplitudes_loop_const:
  assumes "0 \<le> v"
    and "\<forall>(start, stop) \<in> set rs. slice_index start len < slice_index stop len"
  shows "amplitudes_loop (replicate len v) rs result = Inr (result @ replicate (length rs) (sqrt v))"
  using assms(2)
proof (induction rs arbitrary: result)
  case Nil
  then show ?case by simp
next
  case (Cons r rs)
  obtain start stop where r: "r = (start, stop)"
    by (cases r)
  with Cons.prems have "0 < slice_index stop len - slice_index start len"
    by simp
  then have "np_mean (py_slice (replicate len v) start stop) = Inr v"
    by (simp add: py_slice_replicate np_mean_replicate)
  moreover have "amplitudes_loop (replicate len v) rs (result @ [sqrt v])
      = Inr ((result @ [sqrt v]) @ replicate (length rs) (sqrt v))"
    using Cons.prems by (intro Cons.IH) simp
  ultimately show ?case
    using assms(1) by (simp add: r np_sqrt_def replicate_append_same)
qed

lemma ranges_slices: "\<forall>(start, stop) \<in> set ranges. slice_index start 8001 < slice_index stop 8001"
  by (simp add: ranges_eq slice_index_def)

lemma estimate_flat:
  assumes "rfft recording (sample_rate noise) = Inr (replicate 8001 (complex_of_real c))"
  shows "get_amplitudes_at_frequency_ranges noise recording ranges = Inr (replicate 8 \<bar>c\<bar>)"
proof -
  have "amplitudes_loop (replicate 8001 (c\<^sup>2)) ranges []
      = Inr ([] @ replicate (length ranges) (sqrt (c\<^sup>2)))"
    using ranges_slices by (intro amplitudes_loop_const) simp_all
  moreover have "length ranges = 8"
    by (simp add: ranges_eq)
  ultimately show ?thesis
    using assms by (simp add: get_amplitudes_at_frequency_ranges_def)
qed

lemma rfft_noise_zero: "rfft (replicate m 0) (sample_rate noise) = Inr (replicate 8001 (complex_of_real 0))"
  using rfft_zero [of 16000 m] by (simp add: noise_def)

text \<open>
  Claim C7. For the eight ranges of the program, the estimator applied to an all-zero
  block of any length returns eight amplitudes, each of them zero: the spectrum of the
  block is zero, every range selects a non-empty run of bins, and the square root of the
  mean of zeros is zero.
\<close>

theorem estimate_zero:
  "get_amplitudes_at_frequency_ranges noise (replicate m 0) ranges = Inr (replicate 8 0)"
  using estimate_flat [OF rfft_noise_zero, of m] by simp

theorem estimate_zero_witness:
  "get_amplitudes_at_frequency_ranges noise (replicate 8000 0) ranges
     = Inr [0, 0, 0, 0, 0, 0, 0, 0]"
  using estimate_zero [of 8000] by (simp add: numeral_eq_Suc)

lemma estimate_impulse:
  "get_amplitudes_at_frequency_ranges noise [c] ranges = Inr (replicate 8 \<bar>c\<bar>)"
proof -
  have "rfft [c] (sample_rate noise) = Inr (replicate 8001 (complex_of_real c))"
    using rfft_impulse [of 16000 c] by (simp add: noise_def)
  then show ?thesis
    by (rule estimate_flat)
qed

section \<open>The band weighter\<close>

lemma weighted_amps_loop_upt:
  assumes "length acc = k" and "n \<le> length amps" and "n \<le> length aw"
  shows "weighted_amps_loop [k..<n] amps aw acc
    = Inr (acc @ map (\<lambda>b. py_round_ndigits (2 * (amps ! b * aw ! b)) 2) [k..<n])"
  using assms
proof (induction "n - k" arbitrary: k acc)
  case 0
  then show ?case by simp
next
  case (Suc d)
  then have k: "k < n" and d: "d = n - Suc k"
    by linarith+
  let ?v = "py_round_ndigits (2 * (amps ! k * aw ! k)) 2"
  have ins: "list_insert acc k ?v = acc @ [?v]"
    using Suc.prems(1) by (simp add: list_insert_def)
  have "weighted_amps_loop [Suc k..<n] amps aw (acc @ [?v])
      = Inr ((acc @ [?v]) @ map (\<lambda>b. py_round_ndigits (2 * (amps ! b * aw ! b)) 2) [Suc k..<n])"
    using d Suc.prems by (intro Suc.hyps(1)) simp_all
  with k Suc.prems ins show ?case
    by (simp add: upt_conv_Cons)
qed

lemma weighted_amps_eq:
  assumes "n \<le> length amps" and "n \<le> length aw"
  shows "weighted_amps n amps aw
    = Inr (map (\<lambda>b. py_round_ndigits (2 * (amps ! b * aw ! b)) 2) [0..<n])"
  using weighted_amps_loop_upt [of "[]" 0 n amps aw] assms
  by (simp add: weighted_amps_def)

lemma no_of_measurements_eq: "no_of_measurements = 8"
  by (simp add: no_of_measurements_def bands_def)

text \<open>
  Claim C3. For energies and weights of length 8 the weighting loop does not fail, and
  its result has 8 entries, the entry at every index \<open>i\<close> being
  \<open>2 * energies[i] * weights[i]\<close> rounded to two decimal places. The result is a
  function of the two lists alone.
\<close>

theorem band_weighter_elementwise:
  assumes "length energies = 8" and "length weights = 8"
  shows "\<exists>out. weighted_amps no_of_measurements energies weights = Inr out
           \<and> length out = 8
           \<and> (\<forall>i<8. out ! i = py_round_ndigits (2 * energies ! i * weights ! i) 2)"
  using assms weighted_amps_eq [of 8 energies weights]
  by (simp add: no_of_measurements_eq mult.assoc)

theorem band_weighter_elementwise_witness:
  "length [1, 1, 1, 1, 1, 1, 1, 1 :: real] = 8 \<and> length a_weightings = 8
   \<and> (\<exists>out. weighted_amps no_of_measurements [1, 1, 1, 1, 1, 1, 1, 1] a_weightings = Inr out
          \<and> length out = 8 \<and> out ! 7 = 1 / 100)"
proof -
  have h1: "length [1, 1, 1, 1, 1, 1, 1, 1 :: real] = 8"
    by simp
  have h2: "length a_weightings = 8"
    by (simp add: a_weightings_def)
  from band_weighter_elementwise [OF h1 h2] obtain out
    where out: "weighted_amps no_of_measurements [1, 1, 1, 1, 1, 1, 1, 1] a_weightings = Inr out"
      "length out = 8"
      "\<forall>i<8. out ! i = py_round_ndigits (2 * [1, 1, 1, 1, 1, 1, 1, 1] ! i * a_weightings ! i) 2"
    by blast
  from out(3) have "out ! 7 = py_round_ndigits (2 * [1, 1, 1, 1, 1, 1, 1, 1] ! 7 * a_weightings ! 7) 2"
    by simp
  also have "\<dots> = 1 / 100"
    by (simp add: a_weightings_def py_round_ndigits_def py_round_def Let_def)
  finally show ?thesis
    using h1 h2 out(1,2) by simp
qed

text \<open>
  Claim C9. Scaling the energies by \<open>k \<ge> 0\<close> scales the weighted amplitudes by
  \<open>k\<close>, up to the two roundings involved: each rounding moves a value by at most
  \<open>0.005\<close>, so entry \<open>i\<close> of \<open>weight (k * e, w)\<close> and \<open>k\<close> times entry \<open>i\<close> of
  \<open>weight (e, w)\<close> differ by at most \<open>0.005 * (1 + k)\<close>.
\<close>

theorem band_weighter_linear_up_to_rounding:
  assumes "0 \<le> k" and "length e = 8" and "length w = 8"
  shows "\<exists>out_k out. weighted_amps no_of_measurements (map ((*) k) e) w = Inr out_k
           \<and> weighted_amps no_of_measurements e w = Inr out
           \<and> (\<forall>i<8. \<bar>out_k ! i - k * out ! i\<bar> \<le> (1 + k) / 200)"
proof -
  let ?f = "\<lambda>xs b. py_round_ndigits (2 * (xs ! b * w ! b)) 2"
  have a: "weighted_amps no_of_measurements (map ((*) k) e) w = Inr (map (?f (map ((*) k) e)) [0..<8])"
    using assms weighted_amps_eq [of 8 "map ((*) k) e" w] by (simp add: no_of_measurements_eq)
  have b: "weighted_amps no_of_measurements e w = Inr (map (?f e) [0..<8])"
    using assms weighted_amps_eq [of 8 e w] by (simp add: no_of_measurements_eq)
  have "\<bar>map (?f (map ((*) k) e)) [0..<8] ! i - k * map (?f e) [0..<8] ! i\<bar> \<le> (1 + k) / 200"
    if i: "i < 8" for i
  proof -
    define x where "x = 2 * (e ! i * w ! i)"
    have kx: "2 * (map ((*) k) e ! i * w ! i) = k * x"
      using i assms by (simp add: x_def)
    have r1: "\<bar>py_round_ndigits (k * x) 2 - k * x\<bar> \<le> 1 / 200"
      by (rule py_round_ndigits_error)
    have "\<bar>k * py_round_ndigits x 2 - k * x\<bar> = k * \<bar>py_round_ndigits x 2 - x\<bar>"
      using assms(1) by (simp add: abs_mult right_diff_distrib [symmetric])
    also have "\<dots> \<le> k * (1 / 200)"
      using assms(1) py_round_ndigits_error [of x] by (intro mult_left_mono)
    finally have r2: "\<bar>k * py_round_ndigits x 2 - k * x\<bar> \<le> k / 200"
      by simp
    have "\<bar>py_round_ndigits (k * x) 2 - k * py_round_ndigits x 2\<bar>
        \<le> \<bar>py_round_ndigits (k * x) 2 - k * x\<bar> + \<bar>k * py_round_ndigits x 2 - k * x\<bar>"
      by linarith
    also have "\<dots> \<le> 1 / 200 + k / 200"
      using r1 r2 by (rule add_mono)
    also have "\<dots> = (1 + k) / 200"
      by (simp add: add_divide_distrib)
    finally have "\<bar>py_round_ndigits (k * x) 2 - k * py_round_ndigits x 2\<bar> \<le> (1 + k) / 200" .
    moreover have "map (?f (map ((*) k) e)) [0..<8] ! i = py_round_ndigits (k * x) 2"
      using i kx by (simp del: upt_rec_numeral)
    moreover have "map (?f e) [0..<8] ! i = py_round_ndigits x 2"
      using i by (simp add: x_def del: upt_rec_numeral)
    ultimately show ?thesis
      by simp
  qed
  with a b show ?thesis
    by blast
qed

theorem band_weighter_linear_up_to_rounding_witness:
  "(0::real) \<le> 3 \<and> length [1, 1, 1, 1, 1, 1, 1, 1 :: real] = 8 \<and> length a_weightings = 8
   \<and> (\<exists>out_k out.
         weighted_amps no_of_measurements (map ((*) 3) [1, 1, 1, 1, 1, 1, 1, 1]) a_weightings = Inr out_k
         \<and> weighted_amps no_of_measurements [1, 1, 1, 1, 1, 1, 1, 1] a_weightings = Inr out
         \<and> \<bar>out_k ! 7 - 3 * out ! 7\<bar> \<le> (1 + 3) / 200)"
proof -
  have h0: "(0::real) \<le> 3"
    by simp
  have h1: "length [1, 1, 1, 1, 1, 1, 1, 1 :: real] = 8"
    by simp
  have h2: "length a_weightings = 8"
    by (simp add: a_weightings_def)
  from band_weighter_linear_up_to_rounding [OF h0 h1 h2] obtain out_k out
    where out: "weighted_amps no_of_measurements (map ((*) 3) [1, 1, 1, 1, 1, 1, 1, 1]) a_weightings = Inr out_k"
      "weighted_amps no_of_measurements [1, 1, 1, 1, 1, 1, 1, 1] a_weightings = Inr out"
      "\<forall>i<8. \<bar>out_k ! i - 3 * out ! i\<bar> \<le> (1 + 3) / 200"
    by blast
  from out(3) have "\<bar>out_k ! 7 - 3 * out ! 7\<bar> \<le> (1 + 3) / 200"
    by simp
  with h1 h2 out(1,2) show ?thesis
    by simp
qed

text \<open>
  The weighted amplitudes of a flat spectrum, with the weights of the program.
\<close>

lemma weighted_amps_flat:
  "weighted_amps no_of_measurements (replicate 8 c) a_weightings
    = Inr (map (\<lambda>w. py_round_ndigits (2 * (c * w)) 2) a_weightings)"
proof -
  have "weighted_amps 8 (replicate 8 c) a_weightings
      = Inr (map (\<lambda>b. py_round_ndigits (2 * (replicate 8 c ! b * a_weightings ! b)) 2) [0..<8])"
    by (intro weighted_amps_eq) (simp_all add: a_weightings_def)
  moreover have "map (\<lambda>b. py_round_ndigits (2 * (replicate 8 c ! b * a_weightings ! b)) 2) [0..<8]
      = map (\<lambda>w. py_round_ndigits (2 * (c * w)) 2) a_weightings"
    by (simp add: a_weightings_def upt_conv_Cons del: upt_rec_numeral)
  ultimately show ?thesis
    by (simp add: no_of_measurements_eq)
qed

lemma weighted_amps_unit:
  "weighted_amps no_of_measurements (replicate 8 1) a_weightings
    = Inr [12 / 5, 16 / 5, 16 / 5, 2, 1, 1 / 5, 1 / 25, 1 / 100]"
  by (simp add: weighted_amps_flat) (simp add: a_weightings_def py_round_ndigits_def py_round_def Let_def)

lemma weighted_amps_half:
  "weighted_amps no_of_measurements (replicate 8 (1 / 2)) a_weightings
    = Inr [6 / 5, 8 / 5, 8 / 5, 1, 1 / 2, 1 / 10, 1 / 50, 0]"
  by (simp add: weighted_amps_flat) (simp add: a_weightings_def py_round_ndigits_def py_round_def Let_def)

lemma weighted_amps_zero:
  "weighted_amps no_of_measurements (replicate 8 0) a_weightings = Inr [0, 0, 0, 0, 0, 0, 0, 0]"
  by (simp add: weighted_amps_flat) (simp add: a_weightings_def py_round_ndigits_def py_round_def Let_def)

section \<open>The scale mapper\<close>

lemma log2_max_spl_eq: "log2_max_spl = log 2 450"
  by (simp add: log2_max_spl_def max_spl_def log_def)

lemma log2_max_spl_pos: "0 < log2_max_spl"
  by (simp add: log2_max_spl_eq)

lemma math_log_max_spl: "math_log max_spl 2 = Inr log2_max_spl"
  by (simp add: math_log_def log2_max_spl_def max_spl_def)

lemma log2_bar_value_nonpositive: "s \<le> 0 \<Longrightarrow> log2_bar_value disp_width s = Inl ValueError"
  by (simp add: log2_bar_value_def math_log_def)

lemma log2_bar_value_positive:
  assumes "0 < s"
  shows "log2_bar_value disp_width s
    = Inr (py_round_ndigits (of_int (disp_width - l_margin) * (max 0 (log 2 s) / log 2 max_spl)) 2)"
proof -
  have l: "math_log s 2 = Inr (log 2 s)"
    using assms by (simp add: math_log_def log_def)
  have "log2_max_spl = log 2 max_spl"
    by (simp add: log2_max_spl_def log_def)
  then have "max 0 (log 2 s) * (100 / log2_max_spl) / 100 = max 0 (log 2 s) / log 2 max_spl"
    by simp
  then show ?thesis
    by (simp only: log2_bar_value_def l sum.case)
qed

lemma log2_bar_value_max_spl: "log2_bar_value disp_width max_spl = Inr (of_int (disp_width - l_margin))"
proof -
  have "0 < max_spl"
    by (simp add: max_spl_def)
  moreover have "0 < log 2 max_spl"
    by (simp add: max_spl_def)
  then have "max 0 (log 2 max_spl) / log 2 max_spl = 1"
    by simp
  ultimately show ?thesis
    by (simp only: log2_bar_value_positive py_round_ndigits_of_int mult_1_right)
qed

lemma log2_bar_values_eq:
  "log2_bar_values disp_width wa =
     (if \<exists>s \<in> set wa. s \<le> 0 then Inl ValueError
      else Inr (map (\<lambda>s. py_round_ndigits
                  (of_int (disp_width - l_margin) * (max 0 (log 2 s) / log 2 max_spl)) 2) wa))"
proof (induction wa)
  case Nil
  then show ?case by simp
next
  case (Cons s wa)
  show ?case
  proof (cases "s \<le> 0")
    case True
    then show ?thesis
      by (simp add: log2_bar_value_nonpositive)
  next
    case False
    then have "0 < s"
      by simp
    then show ?thesis
      using Cons.IH by (simp add: log2_bar_value_positive)
  qed
qed

lemma pow_450_neq_pow_2:
  assumes "0 < m"
  shows "(450::nat) ^ m \<noteq> 2 ^ k"
proof
  assume eq: "(450::nat) ^ m = 2 ^ k"
  have "(3::nat) dvd 450"
    by simp
  moreover have "(450::nat) dvd 450 ^ m"
    using assms by simp
  ultimately have "(3::nat) dvd 450 ^ m"
    by (rule dvd_trans)
  with eq have "(3::nat) dvd 2 ^ k"
    by simp
  moreover have "coprime (3::nat) (2 ^ k)"
    by simp
  ultimately show False
    using coprime_common_divisor_nat [of 3 "2 ^ k" 3] by simp
qed

lemma log2_450_irrational:
  assumes "real m * log 2 450 = real k"
  shows "m = 0"
proof (rule ccontr)
  assume "m \<noteq> 0"
  then have m: "0 < m"
    by simp
  have "log 2 (450 ^ m) = real m * log 2 450"
    by (simp add: log_nat_power)
  also have "\<dots> = log 2 (2 ^ k)"
    using assms by simp
  finally have "2 powr log 2 (450 ^ m) = 2 powr log 2 (2 ^ k)"
    by (rule arg_cong)
  then have "(450::real) ^ m = 2 ^ k"
    by (simp add: powr_realpow)
  then have "real (450 ^ m) = real (2 ^ k)"
    by simp
  then have "(450::nat) ^ m = 2 ^ k"
    by (simp only: of_nat_eq_iff)
  with pow_450_neq_pow_2 [OF m, of k] show False
    by simp
qed

lemma py_round_ndigits_log2_450:
  assumes "0 < w"
  shows "py_round_ndigits (of_int w / log 2 450) 2 \<noteq> of_int w / log 2 450"
proof
  define z where "z = py_round (of_int w / log 2 450 * 10\<^sup>2)"
  have L: "0 < log 2 450"
    by simp
  assume "py_round_ndigits (of_int w / log 2 450) 2 = of_int w / log 2 450"
  then have "of_int z / 100 = of_int w / log 2 450"
    by (simp add: py_round_ndigits_def z_def)
  then have eq: "of_int z * log 2 450 = of_int (100 * w)"
    using L by (simp add: field_simps)
  have "0 < of_int z * log 2 450"
    using assms by (simp only: eq of_int_0_less_iff)
  then have z: "0 < z"
    using L by (simp add: zero_less_mult_iff)
  then have "real (nat z) * log 2 450 = real (nat (100 * w))"
    using eq assms by simp
  then have "nat z = 0"
    by (rule log2_450_irrational)
  with z show False
    by simp
qed

text \<open>
  Claim C4, as stated, fails in two ways. At amplitude \<open>0\<close> the log2 branch returns no
  width at all: \<^verbatim>\<open>math.log(0, 2)\<close> raises before \<^verbatim>\<open>max\<close> is applied. At
  amplitude \<open>2\<close> on a display 160 pixels wide the width is the formula's value rounded to
  two decimal places, and the unrounded value \<open>131 / log\<^sub>2 450\<close> is irrational.
\<close>

theorem log2_scale_formula_counterexample:
  "log2_bar_value 160 0 = Inl ValueError
   \<and> log2_bar_value 160 2 \<noteq> Inr (of_int (160 - l_margin) * (max 0 (log 2 2) / log 2 max_spl))"
proof
  show "log2_bar_value 160 0 = Inl ValueError"
    by (rule log2_bar_value_nonpositive) simp
  have "log2_bar_value 160 2 = Inr (py_round_ndigits (of_int 131 / log 2 450) 2)"
    by (simp add: log2_bar_value_positive l_margin_def max_spl_def)
  moreover have "of_int (160 - l_margin) * (max 0 (log 2 2) / log 2 max_spl) = of_int 131 / log 2 450"
    by (simp add: l_margin_def max_spl_def)
  ultimately show "log2_bar_value 160 2 \<noteq> Inr (of_int (160 - l_margin) * (max 0 (log 2 2) / log 2 max_spl))"
    using py_round_ndigits_log2_450 [of 131] by (simp only: sum.inject) simp
qed

text \<open>
  Claim C4, amended. For every amplitude \<open>s > 0\<close> the log2 branch returns
  \<open>maxWidthPx * (max 0 (log\<^sub>2 s) / log\<^sub>2 maxSpl)\<close> rounded to two decimal places, where
  \<open>maxWidthPx\<close> is the display width minus the left margin; at \<open>s = maxSpl = 450\<close> the
  result is exactly \<open>maxWidthPx\<close>.
\<close>

theorem log2_scale_rounded_formula:
  "(0 < s \<longrightarrow> log2_bar_value disp_width s
       = Inr (py_round_ndigits (of_int (disp_width - l_margin) * (max 0 (log 2 s) / log 2 max_spl)) 2))
   \<and> log2_bar_value disp_width max_spl = Inr (of_int (disp_width - l_margin))"
  by (simp add: log2_bar_value_positive log2_bar_value_max_spl)

theorem log2_scale_rounded_formula_witness:
  "(0::real) < 2
   \<and> log2_bar_value 160 2 = Inr (py_round_ndigits (of_int (160 - l_margin) * (max 0 (log 2 2) / log 2 max_spl)) 2)
   \<and> log2_bar_value 160 max_spl = Inr 131"
  using log2_scale_rounded_formula [of 2 160] by (simp add: l_margin_def)

text \<open>
  Claim C5. On a display wider than the left margin, the linear branch (which also rounds
  to two decimal places) is monotonically non-decreasing in the amplitude, returns exactly
  \<open>maxWidthPx\<close> at \<open>maxSpl\<close>, and exceeds every bound at some amplitude above
  \<open>maxSpl\<close>: nothing clips it.
\<close>

theorem linear_scale_properties:
  assumes "l_margin < disp_width"
  shows "(\<forall>a1 a2. a1 \<le> a2 \<longrightarrow> linear_bar_value disp_width a1 \<le> linear_bar_value disp_width a2)
    \<and> linear_bar_value disp_width max_spl = of_int (disp_width - l_margin)
    \<and> (\<forall>B. \<exists>a. max_spl < a \<and> B < linear_bar_value disp_width a)"
proof (intro conjI allI impI)
  define W :: real where "W = of_int (disp_width - l_margin)"
  have W: "0 < W"
    using assms by (simp add: W_def)
  show "linear_bar_value disp_width a1 \<le> linear_bar_value disp_width a2" if "a1 \<le> a2" for a1 a2
  proof -
    from that have "a1 / max_spl \<le> a2 / max_spl"
      by (simp add: max_spl_def divide_right_mono)
    then have "W * (a1 / max_spl) \<le> W * (a2 / max_spl)"
      using W by (intro mult_left_mono) simp_all
    then show ?thesis
      unfolding linear_bar_value_def W_def by (rule py_round_ndigits_mono)
  qed
  show "linear_bar_value disp_width max_spl = of_int (disp_width - l_margin)"
  proof -
    have "max_spl / max_spl = 1"
      by (simp add: max_spl_def)
    then show ?thesis
      by (simp only: linear_bar_value_def mult_1_right py_round_ndigits_of_int)
  qed
  show "\<exists>a. max_spl < a \<and> B < linear_bar_value disp_width a" for B
  proof -
    define a where "a = max 451 ((\<bar>B\<bar> + 1) * 450 / W)"
    have "(\<bar>B\<bar> + 1) * 450 / W \<le> a"
      by (simp add: a_def)
    then have "\<bar>B\<bar> + 1 \<le> W * (a / 450)"
      using W by (simp add: field_simps)
    moreover have "\<bar>py_round_ndigits (W * (a / 450)) 2 - W * (a / 450)\<bar> \<le> 1 / 200"
      by (rule py_round_ndigits_error)
    ultimately have "B < py_round_ndigits (W * (a / 450)) 2"
      by linarith
    moreover have "max_spl < a"
      by (simp add: a_def max_spl_def)
    ultimately show ?thesis
      by (auto simp add: linear_bar_value_def W_def max_spl_def)
  qed
qed

theorem linear_scale_properties_witness:
  "l_margin < 160
   \<and> linear_bar_value 160 0 \<le> linear_bar_value 160 450
   \<and> linear_bar_value 160 max_spl = 131
   \<and> (\<exists>a. max_spl < a \<and> 1000 < linear_bar_value 160 a)"
proof -
  have h: "l_margin < 160"
    by (simp add: l_margin_def)
  from linear_scale_properties [OF h] show ?thesis
    using h by (simp add: l_margin_def)
qed

section \<open>The mode controller\<close>

lemma proximity_toggle_rejected:
  assumes "proximity inp \<le> 1500 \<or> time_cond inp - last_page st \<le> 1 / 2"
  shows "proximity_toggle st inp = st"
  using assms by (auto simp add: proximity_toggle_def delay_def)

lemma proximity_toggle_accepted:
  assumes "1500 < proximity inp" and "1 / 2 < time_cond inp - last_page st"
  shows "proximity_toggle st inp =
    st\<lparr>display_type := (if display_type st = ''n'' then ''l''
                         else if display_type st = ''l'' then ''n'' else display_type st),
       last_page := time_set inp\<rparr>"
  using assms by (simp add: proximity_toggle_def delay_def)

lemma proximity_toggle_mode:
  assumes "display_type st \<in> {''n'', ''l''}"
  shows "display_type (proximity_toggle st inp) \<in> {''n'', ''l''}"
  using assms by (auto simp add: proximity_toggle_def)

lemma proximity_toggle_flag: "aww_go_on (proximity_toggle st inp) = aww_go_on st"
  by (simp add: proximity_toggle_def)

lemma foldl_toggle_rejected:
  assumes "\<forall>i \<in> set mid. proximity i \<le> 1500 \<or> time_cond i - last_page st \<le> 1 / 2"
  shows "foldl proximity_toggle st mid = st"
  using assms by (induction mid) (simp_all add: proximity_toggle_rejected)

lemma foldl_toggle_mode:
  assumes "display_type st \<in> {''n'', ''l''}"
  shows "display_type (foldl proximity_toggle st inps) \<in> {''n'', ''l''}"
  using assms
proof (induction inps arbitrary: st)
  case Nil
  then show ?case by simp
next
  case (Cons inp inps)
  from Cons.prems have "display_type (proximity_toggle st inp) \<in> {''n'', ''l''}"
    by (rule proximity_toggle_mode)
  then have "display_type (foldl proximity_toggle (proximity_toggle st inp) inps) \<in> {''n'', ''l''}"
    by (rule Cons.IH)
  then show ?case
    by simp
qed

lemma foldl_toggle_flag: "aww_go_on (foldl proximity_toggle st inps) = aww_go_on st"
  by (induction inps arbitrary: st) (simp_all add: proximity_toggle_flag)

text \<open>
  Claim C2, as stated, fails on the boundary of the debounce window: with the last
  transition at time \<open>1\<close> and the clock at \<open>1.5\<close>, exactly \<open>0.5\<close> seconds have elapsed
  (so "at least 0.5 seconds" holds) and the reading is above the threshold, yet the
  comparison \<^verbatim>\<open>time.time() - last_page > delay\<close> is strict and the state is unchanged.
\<close>

theorem mode_controller_boundary_counterexample:
  "1500 < proximity \<lparr>proximity = 2000, time_cond = 3 / 2, time_set = 3 / 2, audio = []\<rparr>
   \<and> delay \<le> time_cond \<lparr>proximity = 2000, time_cond = 3 / 2, time_set = 3 / 2, audio = []\<rparr>
               - last_page \<lparr>display_type = ''n'', last_page = 1, aww_go_on = True\<rparr>
   \<and> proximity_toggle \<lparr>display_type = ''n'', last_page = 1, aww_go_on = True\<rparr>
        \<lparr>proximity = 2000, time_cond = 3 / 2, time_set = 3 / 2, audio = []\<rparr>
       = \<lparr>display_type = ''n'', last_page = 1, aww_go_on = True\<rparr>"
  by (simp add: proximity_toggle_def delay_def)

text \<open>
  Claim C2, amended. From a state whose mode is \<open>n\<close> or \<open>l\<close>, the mode changes exactly
  when the reading exceeds 1500 and strictly more than 0.5 seconds separate the clock
  from the recorded time of the last accepted transition; an accepted transition records
  the clock as read on acceptance, and a reading that is not accepted changes nothing.
  After an accepted transition, readings that are below the threshold or come at most
  0.5 seconds after its recorded time (whatever their level) cause no transition; a spike
  that comes more than 0.5 seconds after it is accepted too and returns the mode to its
  original value.
\<close>

theorem mode_controller_debounce:
  assumes mode: "display_type st \<in> {''n'', ''l''}"
  shows "((display_type (proximity_toggle st inp) \<noteq> display_type st)
            = (1500 < proximity inp \<and> 1 / 2 < time_cond inp - last_page st))
    \<and> (1500 < proximity inp \<and> 1 / 2 < time_cond inp - last_page st \<longrightarrow>
          last_page (proximity_toggle st inp) = time_set inp
          \<and> (\<forall>mid. (\<forall>i \<in> set mid. proximity i \<le> 1500 \<or> time_cond i - time_set inp \<le> 1 / 2) \<longrightarrow>
                foldl proximity_toggle (proximity_toggle st inp) mid = proximity_toggle st inp
                \<and> (\<forall>inp2. 1500 < proximity inp2 \<and> 1 / 2 < time_cond inp2 - time_set inp \<longrightarrow>
                      display_type (foldl proximity_toggle st (inp # mid @ [inp2])) = display_type st)))
    \<and> (\<not> (1500 < proximity inp \<and> 1 / 2 < time_cond inp - last_page st) \<longrightarrow>
          proximity_toggle st inp = st)"
proof (intro conjI impI allI)
  show "(display_type (proximity_toggle st inp) \<noteq> display_type st)
      = (1500 < proximity inp \<and> 1 / 2 < time_cond inp - last_page st)"
    using mode by (auto simp add: proximity_toggle_def delay_def)
next
  assume "\<not> (1500 < proximity inp \<and> 1 / 2 < time_cond inp - last_page st)"
  then show "proximity_toggle st inp = st"
    by (intro proximity_toggle_rejected) auto
next
  assume acc: "1500 < proximity inp \<and> 1 / 2 < time_cond inp - last_page st"
  then show lp: "last_page (proximity_toggle st inp) = time_set inp"
    by (simp add: proximity_toggle_accepted)
  fix mid :: "cycle_input list"
  assume quiet: "\<forall>i \<in> set mid. proximity i \<le> 1500 \<or> time_cond i - time_set inp \<le> 1 / 2"
  then show hold: "foldl proximity_toggle (proximity_toggle st inp) mid = proximity_toggle st inp"
    by (intro foldl_toggle_rejected) (simp add: lp)
  fix inp2 :: cycle_input
  assume acc2: "1500 < proximity inp2 \<and> 1 / 2 < time_cond inp2 - time_set inp"
  have "foldl proximity_toggle st (inp # mid @ [inp2])
      = proximity_toggle (proximity_toggle st inp) inp2"
    by (simp add: hold)
  moreover have "display_type (proximity_toggle (proximity_toggle st inp) inp2) = display_type st"
  proof -
    have first: "display_type (proximity_toggle st inp)
        = (if display_type st = ''n'' then ''l'' else ''n'')"
      using mode acc by (auto simp add: proximity_toggle_accepted)
    have "1 / 2 < time_cond inp2 - last_page (proximity_toggle st inp)"
      using acc2 lp by simp
    with acc2 have "display_type (proximity_toggle (proximity_toggle st inp) inp2)
        = (if display_type (proximity_toggle st inp) = ''n'' then ''l''
           else if display_type (proximity_toggle st inp) = ''l'' then ''n''
           else display_type (proximity_toggle st inp))"
      by (simp add: proximity_toggle_accepted)
    with first mode show ?thesis
      by auto
  qed
  ultimately show "display_type (foldl proximity_toggle st (inp # mid @ [inp2])) = display_type st"
    by simp
qed

theorem mode_controller_debounce_witness:
  "display_type initial_state \<in> {''n'', ''l''}
   \<and> display_type (proximity_toggle initial_state
        \<lparr>proximity = 2000, time_cond = 100, time_set = 100, audio = []\<rparr>) = ''l''
   \<and> last_page (proximity_toggle initial_state
        \<lparr>proximity = 2000, time_cond = 100, time_set = 100, audio = []\<rparr>) = 100
   \<and> foldl proximity_toggle
        (proximity_toggle initial_state \<lparr>proximity = 2000, time_cond = 100, time_set = 100, audio = []\<rparr>)
        [\<lparr>proximity = 2000, time_cond = 1003 / 10, time_set = 1003 / 10, audio = []\<rparr>]
       = proximity_toggle initial_state \<lparr>proximity = 2000, time_cond = 100, time_set = 100, audio = []\<rparr>
   \<and> display_type (foldl proximity_toggle initial_state
        [\<lparr>proximity = 2000, time_cond = 100, time_set = 100, audio = []\<rparr>,
         \<lparr>proximity = 2000, time_cond = 1003 / 10, time_set = 1003 / 10, audio = []\<rparr>,
         \<lparr>proximity = 2000, time_cond = 101, time_set = 101, audio = []\<rparr>]) = ''n''"
proof -
  let ?i1 = "\<lparr>proximity = 2000, time_cond = 100, time_set = 100, audio = []\<rparr>"
  let ?im = "\<lparr>proximity = 2000, time_cond = 1003 / 10, time_set = 1003 / 10, audio = []\<rparr>"
  let ?i2 = "\<lparr>proximity = 2000, time_cond = 101, time_set = 101, audio = []\<rparr>"
  have mode: "display_type initial_state \<in> {''n'', ''l''}"
    by (simp add: initial_state_def)
  have acc: "1500 < proximity ?i1 \<and> 1 / 2 < time_cond ?i1 - last_page initial_state"
    by (simp add: initial_state_def)
  have quiet: "\<forall>i \<in> set [?im]. proximity i \<le> 1500 \<or> time_cond i - time_set ?i1 \<le> 1 / 2"
    by simp
  have acc2: "1500 < proximity ?i2 \<and> 1 / 2 < time_cond ?i2 - time_set ?i1"
    by simp
  note T = mode_controller_debounce [OF mode, of ?i1]
  from T [THEN conjunct1] acc
  have changed: "display_type (proximity_toggle initial_state ?i1) \<noteq> display_type initial_state"
    by (rule iffD2)
  note after = T [THEN conjunct2, THEN conjunct1, THEN mp, OF acc]
  from after have lp: "last_page (proximity_toggle initial_state ?i1) = 100"
    by simp
  from after quiet have held: "foldl proximity_toggle (proximity_toggle initial_state ?i1) [?im]
        = proximity_toggle initial_state ?i1
      \<and> (\<forall>inp2. 1500 < proximity inp2 \<and> 1 / 2 < time_cond inp2 - time_set ?i1 \<longrightarrow>
            display_type (foldl proximity_toggle initial_state (?i1 # [?im] @ [inp2]))
              = display_type initial_state)"
    by blast
  with acc2 have returned: "display_type (foldl proximity_toggle initial_state (?i1 # [?im] @ [?i2]))
      = display_type initial_state"
    by blast
  have l: "display_type (proximity_toggle initial_state ?i1) = ''l''"
    using changed proximity_toggle_mode [OF mode, of ?i1] by (auto simp add: initial_state_def)
  from returned have n: "display_type (foldl proximity_toggle initial_state [?i1, ?im, ?i2]) = ''n''"
    by (simp add: initial_state_def)
  from mode l lp held n show ?thesis
    by simp
qed

text \<open>
  Claim C10. \<^verbatim>\<open>last_page\<close> starts at 0 and the clock counts seconds since the epoch,
  so it reads more than \<open>0.5\<close>. Whatever readings at or below the threshold come first
  (they leave the initial state as it is), the first reading above 1500 is accepted: the
  mode becomes \<open>l\<close> and the clock is recorded.
\<close>

theorem first_tap_accepted:
  assumes "\<forall>i \<in> set pre. proximity i \<le> 1500"
    and "1500 < proximity inp" and "1 / 2 < time_cond inp"
  shows "foldl proximity_toggle initial_state pre = initial_state
    \<and> foldl proximity_toggle initial_state (pre @ [inp])
        = \<lparr>display_type = ''l'', last_page = time_set inp, aww_go_on = True\<rparr>"
proof -
  have pre: "foldl proximity_toggle initial_state pre = initial_state"
    using assms(1) by (intro foldl_toggle_rejected) simp
  moreover have "proximity_toggle initial_state inp
      = \<lparr>display_type = ''l'', last_page = time_set inp, aww_go_on = True\<rparr>"
    using assms(2,3) by (simp add: proximity_toggle_def delay_def initial_state_def)
  ultimately show ?thesis
    by simp
qed

theorem first_tap_accepted_witness:
  "(\<forall>i \<in> set [\<lparr>proximity = 100, time_cond = 50, time_set = 50, audio = []\<rparr>]. proximity i \<le> 1500) = True
   \<and> 1500 < proximity \<lparr>proximity = 2000, time_cond = 1700000000, time_set = 1700000001, audio = []\<rparr>
   \<and> 1 / 2 < time_cond \<lparr>proximity = 2000, time_cond = 1700000000, time_set = 1700000001, audio = []\<rparr>
   \<and> foldl proximity_toggle initial_state
        [\<lparr>proximity = 100, time_cond = 50, time_set = 50, audio = []\<rparr>,
         \<lparr>proximity = 2000, time_cond = 1700000000, time_set = 1700000001, audio = []\<rparr>]
       = \<lparr>display_type = ''l'', last_page = 1700000001, aww_go_on = True\<rparr>"
proof -
  let ?pre = "[\<lparr>proximity = 100, time_cond = 50, time_set = 50, audio = []\<rparr>]"
  let ?inp = "\<lparr>proximity = 2000, time_cond = 1700000000, time_set = 1700000001, audio = []\<rparr>"
  have h1: "\<forall>i \<in> set ?pre. proximity i \<le> 1500"
    by simp
  have h2: "1500 < proximity ?inp"
    by simp
  have h3: "1 / 2 < time_cond ?inp"
    by simp
  from first_tap_accepted [OF h1 h2 h3, THEN conjunct2] show ?thesis
    by simp
qed

section \<open>Runs of the main loop\<close>

lemma main_iteration_known_mode:
  assumes "display_type st \<in> {''n'', ''l''}"
    and "main_iteration disp_width st inp = Inr (st', fr)"
  shows "st' = proximity_toggle st inp \<and> fr \<noteq> Oops"
proof -
  have "display_type (proximity_toggle st inp) = ''l'' \<or> display_type (proximity_toggle st inp) = ''n''"
    using proximity_toggle_mode [OF assms(1), of inp] by auto
  with assms(2) show ?thesis
    by (auto simp add: main_iteration_def Let_def split: sum.splits if_splits)
qed

lemma main_loop_known_mode:
  assumes "display_type st \<in> {''n'', ''l''}" and "aww_go_on st"
    and "main_loop disp_width st inps = Inr st'"
  shows "st' = foldl proximity_toggle st inps"
  using assms
proof (induction inps arbitrary: st)
  case Nil
  then show ?case by simp
next
  case (Cons inp inps)
  from Cons.prems obtain st1 fr where it: "main_iteration disp_width st inp = Inr (st1, fr)"
    and rest: "main_loop disp_width st1 inps = Inr st'"
    by (auto split: sum.splits)
  from main_iteration_known_mode [OF Cons.prems(1) it] have st1: "st1 = proximity_toggle st inp"
    by simp
  have "display_type st1 \<in> {''n'', ''l''}"
    unfolding st1 using Cons.prems(1) by (rule proximity_toggle_mode)
  moreover have "aww_go_on st1"
    using Cons.prems(2) by (simp add: st1 proximity_toggle_flag)
  ultimately have "st' = foldl proximity_toggle st1 inps"
    using rest by (rule Cons.IH)
  then show ?case
    by (simp add: st1)
qed

text \<open>
  Claim C6. Every state the loop reaches from the initial state has display mode \<open>n\<close> or
  \<open>l\<close> and the flag \<^verbatim>\<open>aww_go_on\<close> still set, and no iteration run from such a
  state takes the branch of the error screen.
\<close>

theorem display_mode_invariant:
  assumes "main_loop disp_width initial_state inps = Inr st"
  shows "display_type st \<in> {''n'', ''l''} \<and> aww_go_on st
    \<and> (\<forall>inp st' fr. main_iteration disp_width st inp = Inr (st', fr) \<longrightarrow> fr \<noteq> Oops \<and> aww_go_on st')"
proof -
  have init: "display_type initial_state \<in> {''n'', ''l''}" "aww_go_on initial_state"
    by (simp_all add: initial_state_def)
  from main_loop_known_mode [OF init assms]
  have st: "st = foldl proximity_toggle initial_state inps" .
  have mode: "display_type st \<in> {''n'', ''l''}"
    unfolding st using init(1) by (rule foldl_toggle_mode)
  have flag: "aww_go_on st"
    using init(2) by (simp add: st foldl_toggle_flag)
  have "fr \<noteq> Oops \<and> aww_go_on st'" if "main_iteration disp_width st inp = Inr (st', fr)"
    for inp st' fr
    using main_iteration_known_mode [OF mode that] flag by (simp add: proximity_toggle_flag)
  with mode flag show ?thesis
    by blast
qed

theorem display_mode_invariant_witness:
  "main_loop 160 initial_state
     [\<lparr>proximity = 2000, time_cond = 100, time_set = 100, audio = [1]\<rparr>]
     = Inr \<lparr>display_type = ''l'', last_page = 100, aww_go_on = True\<rparr>
   \<and> display_type \<lparr>display_type = ''l'', last_page = 100, aww_go_on = True\<rparr> \<in> {''n'', ''l''}
   \<and> aww_go_on \<lparr>display_type = ''l'', last_page = 100, aww_go_on = True\<rparr>"
proof -
  have "\<exists>bv. main_iteration 160 initial_state
        \<lparr>proximity = 2000, time_cond = 100, time_set = 100, audio = [1]\<rparr>
      = Inr (\<lparr>display_type = ''l'', last_page = 100, aww_go_on = True\<rparr>, bv)"
    using estimate_impulse [of 1]
    by (simp add: main_iteration_def proximity_toggle_def initial_state_def delay_def
        weighted_amps_unit log2_bar_values_eq)
  then have run: "main_loop 160 initial_state
     [\<lparr>proximity = 2000, time_cond = 100, time_set = 100, audio = [1]\<rparr>]
     = Inr \<lparr>display_type = ''l'', last_page = 100, aww_go_on = True\<rparr>"
    by (auto simp add: initial_state_def)
  from display_mode_invariant [OF run] show ?thesis
    using run by simp
qed

text \<open>
  The part of claim C1 that the code keeps: for every amplitude \<open>s\<close> with \<open>0 < s \<le> 1\<close>
  the log2 branch returns a width of exactly 0, the logarithm being clamped from below.
\<close>

theorem log2_bar_value_le_one:
  assumes "0 < s" and "s \<le> 1"
  shows "log2_bar_value disp_width s = Inr 0"
proof -
  from assms have "log 2 s \<le> 0"
    by (simp add: log_def divide_le_0_iff)
  then have "max 0 (log 2 s) = 0"
    by simp
  then show ?thesis
    using py_round_ndigits_of_int [of 0 2] by (simp add: log2_bar_value_positive [OF assms(1)])
qed

theorem log2_bar_value_le_one_witness:
  "(0::real) < 1 / 2 \<and> (1 / 2::real) \<le> 1 \<and> log2_bar_value 160 (1 / 2) = Inr 0"
proof -
  have h1: "(0::real) < 1 / 2" and h2: "(1 / 2::real) \<le> 1"
    by simp_all
  from log2_bar_value_le_one [OF h1 h2, of 160] show ?thesis
    by simp
qed

text \<open>
  Claim C1 does not hold of the code: the log2 branch evaluates \<^verbatim>\<open>math.log(s, 2)\<close>
  first and clamps the result afterwards, so an amplitude of zero raises
  \<^verbatim>\<open>ValueError\<close>, which nothing catches. A silent block in log2 mode ends the
  program that way, and so does a block with one sample of \<open>0.5\<close> after a tap has switched
  the display to log2 mode: its weighted amplitude in the 63 Hz band,
  \<open>2 * 0.5 * 0.003\<close>, rounds to \<open>0.0\<close>.
\<close>

theorem log2_branch_domain_error:
  "log2_bar_value 160 0 = Inl ValueError
   \<and> main_iteration 160 \<lparr>display_type = ''l'', last_page = 0, aww_go_on = True\<rparr>
        \<lparr>proximity = 0, time_cond = 100, time_set = 100, audio = replicate 8000 0\<rparr>
       = Inl ValueError
   \<and> main_loop 160 initial_state
        [\<lparr>proximity = 2000, time_cond = 100, time_set = 100, audio = [1]\<rparr>,
         \<lparr>proximity = 0, time_cond = 101, time_set = 101, audio = [1 / 2]\<rparr>]
       = Inl ValueError"
proof (intro conjI)
  show "log2_bar_value 160 0 = Inl ValueError"
    by (rule log2_bar_value_nonpositive) simp
  show "main_iteration 160 \<lparr>display_type = ''l'', last_page = 0, aww_go_on = True\<rparr>
        \<lparr>proximity = 0, time_cond = 100, time_set = 100, audio = replicate 8000 0\<rparr>
       = Inl ValueError"
    using estimate_flat [OF rfft_noise_zero, of 8000]
    by (simp add: main_iteration_def proximity_toggle_def weighted_amps_zero log2_bar_values_eq)
  have first: "main_iteration 160 initial_state
        \<lparr>proximity = 2000, time_cond = 100, time_set = 100, audio = [1]\<rparr>
      = Inr (\<lparr>display_type = ''l'', last_page = 100, aww_go_on = True\<rparr>,
             Bars ''Log(2) Ampilitude RMS(A)'' (251, 164, 9)
               (map (\<lambda>s. py_round_ndigits (of_int (160 - l_margin) * (max 0 (log 2 s) / log 2 max_spl)) 2)
                  [12 / 5, 16 / 5, 16 / 5, 2, 1, 1 / 5, 1 / 25, 1 / 100]))"
    using estimate_impulse [of 1]
    by (simp add: main_iteration_def proximity_toggle_def initial_state_def delay_def
        weighted_amps_unit log2_bar_values_eq)
  have second: "main_iteration 160 \<lparr>display_type = ''l'', last_page = 100, aww_go_on = True\<rparr>
        \<lparr>proximity = 0, time_cond = 101, time_set = 101, audio = [1 / 2]\<rparr>
      = Inl ValueError"
    using estimate_impulse [of "1 / 2"]
    by (simp add: main_iteration_def proximity_toggle_def weighted_amps_half log2_bar_values_eq)
  show "main_loop 160 initial_state
        [\<lparr>proximity = 2000, time_cond = 100, time_set = 100, audio = [1]\<rparr>,
         \<lparr>proximity = 0, time_cond = 101, time_set = 101, audio = [1 / 2]\<rparr>]
       = Inl ValueError"
    by (simp add: first second) (simp add: initial_state_def)
qed

end
